theory Spec2Isabelle
  imports Complex_Main "HOL-Library.Sublist" "HOL-Library.Multiset"
    "HOL-Library.Char_ord" "HOL-Library.List_Lexorder"
begin

section \<open>Sample names and metric aggregation of \<open>multiqc/base_module.py\<close>\<close>

text \<open>
  The embedding follows \<open>BaseMultiqcModule\<close>: \<open>clean_s_name\<close>, \<open>_clean_fastq_pair\<close>,
  \<open>groups_for_sample\<close>, \<open>group_samples_names\<close> and \<open>group_samples_and_average_metrics\<close>.
  A Python \<open>str\<close> is a \<open>string\<close> whose characters stand for code points below 256;
  a Python \<open>float\<close> is idealised as a \<open>real\<close>; an exception is the \<open>Inl\<close> side of a sum.
\<close>

subsection \<open>Exceptions\<close>

datatype error =
    ValueError string
  | KeyError string
  | ReError
  | ReducerError string

abbreviation EmptyInputError :: error where
  "EmptyInputError \<equiv> ValueError ''Empty list of sample names passed to clean_s_name()''"

definition bind_err :: "error + 'a \<Rightarrow> ('a \<Rightarrow> error + 'b) \<Rightarrow> error + 'b" where
  "bind_err m k = (case m of Inl e \<Rightarrow> Inl e | Inr x \<Rightarrow> k x)"

fun map_err :: "('a \<Rightarrow> error + 'b) \<Rightarrow> 'a list \<Rightarrow> error + 'b list" where
  "map_err g [] = Inr []"
| "map_err g (x # xs) =
     (case g x of Inl e \<Rightarrow> Inl e
      | Inr y \<Rightarrow> (case map_err g xs of Inl e \<Rightarrow> Inl e | Inr ys \<Rightarrow> Inr (y # ys)))"

fun fold_err :: "('s \<Rightarrow> 'a \<Rightarrow> error + 's) \<Rightarrow> 's \<Rightarrow> 'a list \<Rightarrow> error + 's" where
  "fold_err g s [] = Inr s"
| "fold_err g s (x # xs) =
     (case g s x of Inl e \<Rightarrow> Inl e | Inr s' \<Rightarrow> fold_err g s' xs)"

subsection \<open>String operations of the Python library\<close>

text \<open>\<open>str.isspace\<close> on the code points below 256.\<close>

definition is_space :: "char \<Rightarrow> bool" where
  "is_space c = (of_char c \<in> {9, 10, 11, 12, 13, 28, 29, 30, 31, 32, 133, 160 :: nat})"

definition strip :: "string \<Rightarrow> string" where
  "strip s = rev (dropWhile is_space (rev (dropWhile is_space s)))"

text \<open>\<open>os.path.basename\<close> (POSIX): what follows the last slash.\<close>

definition basename :: "string \<Rightarrow> string" where
  "basename p = rev (takeWhile (\<lambda>c. c \<noteq> CHR ''/'') (rev p))"

text \<open>\<open>sub in s\<close>.\<close>

fun contains :: "string \<Rightarrow> string \<Rightarrow> bool" where
  "contains sub [] = (sub = [])"
| "contains sub (c # cs) = (prefix sub (c # cs) \<or> contains sub cs)"

text \<open>\<open>s.split(sep, 1)[0]\<close>: an empty separator raises, otherwise the text before the
  first occurrence of \<open>sep\<close>, the whole of \<open>s\<close> when there is none.\<close>

fun before_first :: "string \<Rightarrow> string \<Rightarrow> string" where
  "before_first sep [] = []"
| "before_first sep (c # cs) = (if prefix sep (c # cs) then [] else c # before_first sep cs)"

definition split_first :: "string \<Rightarrow> string \<Rightarrow> error + string" where
  "split_first sep s = (if sep = [] then Inl (ValueError ''empty separator'') else Inr (before_first sep s))"

text \<open>\<open>s.replace(old, new)\<close>: every non-overlapping occurrence, from the left; an empty
  \<open>old\<close> puts \<open>new\<close> before every character and at the end.\<close>

fun replace_scan :: "string \<Rightarrow> string \<Rightarrow> string \<Rightarrow> string" where
  "replace_scan old new [] = []"
| "replace_scan old new (c # cs) =
     (if old \<noteq> [] \<and> prefix old (c # cs)
      then new @ replace_scan old new (drop (length old) (c # cs))
      else c # replace_scan old new cs)"

definition py_replace :: "string \<Rightarrow> string \<Rightarrow> string \<Rightarrow> string" where
  "py_replace old new s =
     (if old = [] then concat (map (\<lambda>c. new @ [c]) s) @ new else replace_scan old new s)"

text \<open>\<open>sep.join(xs)\<close>.\<close>

fun join :: "string \<Rightarrow> string list \<Rightarrow> string" where
  "join sep [] = []"
| "join sep [x] = x"
| "join sep (x # y # ys) = x @ sep @ join sep (y # ys)"

text \<open>\<open>s.split(c)\<close> for a one-character separator, and \<open>Path(root).parts\<close> of a POSIX
  path: empty and \<open>.\<close> components vanish, a leading slash is a part of its own, and
  exactly two leading slashes are kept as \<open>//\<close>.\<close>

fun split_on :: "char \<Rightarrow> string \<Rightarrow> string list" where
  "split_on c [] = [[]]"
| "split_on c (x # xs) =
     (if x = c then [] # split_on c xs
      else (case split_on c xs of [] \<Rightarrow> [[x]] | y # ys \<Rightarrow> (x # y) # ys))"

definition path_parts :: "string \<Rightarrow> string list" where
  "path_parts p =
     (let lead = takeWhile (\<lambda>c. c = CHR ''/'') p;
          anchor = (if length lead = 2 then [''//''] else if lead \<noteq> [] then [''/''] else [])
      in anchor @ filter (\<lambda>d. d \<noteq> [] \<and> d \<noteq> ''.'') (split_on (CHR ''/'') p))"

subsection \<open>The regular-expression library\<close>

text \<open>
  The module \<open>re\<close> is not part of the repository. It enters as a parameter: whether a
  pattern compiles, the end of the match that starts at a given position (the flag says
  that an empty match is refused there), whether a pattern matches a whole string, and
  the expansion of a replacement template that holds a backslash.
\<close>

record regex_engine =
  re_compiles :: "string \<Rightarrow> bool"
  re_match_at :: "string \<Rightarrow> string \<Rightarrow> nat \<Rightarrow> bool \<Rightarrow> nat option"
  re_fullmatch_ok :: "string \<Rightarrow> string \<Rightarrow> bool"
  re_template_ok :: "string \<Rightarrow> string \<Rightarrow> bool"
  re_expand :: "string \<Rightarrow> string \<Rightarrow> string \<Rightarrow> nat \<Rightarrow> nat \<Rightarrow> string"

text \<open>A match starting at \<open>k\<close>; an end outside the subject counts as no match.\<close>

definition match_end :: "regex_engine \<Rightarrow> string \<Rightarrow> string \<Rightarrow> nat \<Rightarrow> bool \<Rightarrow> nat option" where
  "match_end eng p s k must_advance =
     (case re_match_at eng p s k must_advance of
        None \<Rightarrow> None
      | Some e \<Rightarrow> if k \<le> e \<and> e \<le> length s \<and> (must_advance \<longrightarrow> k < e) then Some e else None)"

text \<open>The leftmost match at or after \<open>start\<close>; only at \<open>start\<close> itself can the
  match be required to advance.\<close>

fun first_match :: "regex_engine \<Rightarrow> string \<Rightarrow> string \<Rightarrow> nat \<Rightarrow> bool \<Rightarrow> nat list \<Rightarrow> (nat \<times> nat) option" where
  "first_match eng p s start adv [] = None"
| "first_match eng p s start adv (k # ks) =
     (case match_end eng p s k (adv \<and> k = start) of
        Some e \<Rightarrow> Some (k, e)
      | None \<Rightarrow> first_match eng p s start adv ks)"

definition search_from :: "regex_engine \<Rightarrow> string \<Rightarrow> string \<Rightarrow> nat \<Rightarrow> bool \<Rightarrow> (nat \<times> nat) option" where
  "search_from eng p s start adv = first_match eng p s start adv [start ..< Suc (length s)]"

text \<open>
  \<open>re.sub(pattern, repl, s)\<close> with the default \<open>count = 0\<close>: the subject is scanned
  for one match after the other until none is left, each match is replaced, and the
  text between matches is copied. After an empty match the next one has to advance.
\<close>

function re_sub_loop :: "regex_engine \<Rightarrow> string \<Rightarrow> (nat \<Rightarrow> nat \<Rightarrow> string) \<Rightarrow> string \<Rightarrow> nat \<Rightarrow> bool \<Rightarrow> string" where
  "re_sub_loop eng p subst s pos adv =
     (case search_from eng p s pos adv of
        None \<Rightarrow> drop pos s
      | Some (b, e) \<Rightarrow> take (b - pos) (drop pos s) @ subst b e @ re_sub_loop eng p subst s e (e = b))"
  by pat_completeness auto
termination
proof (relation "measure (\<lambda>(eng, p, subst, s, pos, adv). 2 * (length s - pos) + (if adv then 0 else 1))", goal_cases)
  case 1
  show ?case by simp
next
  case (2 eng p subst s pos adv x2 b e)
  have fm: "first_match eng p s pos adv ks = Some (b', e') \<Longrightarrow>
            b' \<in> set ks \<and> match_end eng p s b' (adv \<and> b' = pos) = Some e'" for ks b' e'
    by (induction ks) (auto split: option.splits)
  from 2 have "first_match eng p s pos adv [pos ..< Suc (length s)] = Some (b, e)"
    by (simp add: search_from_def)
  from fm [OF this] have b: "pos \<le> b" and m: "match_end eng p s b (adv \<and> b = pos) = Some e"
    by auto
  from m have "b \<le> e" "e \<le> length s" "adv \<and> b = pos \<longrightarrow> b < e"
    by (auto simp: match_end_def split: option.splits if_splits)
  with b show ?case by (cases "e = b") auto
qed

text \<open>A replacement without a backslash is taken literally; one with a backslash is a
  template, which must parse and is expanded for each match.\<close>

definition re_sub :: "regex_engine \<Rightarrow> string \<Rightarrow> string \<Rightarrow> string \<Rightarrow> error + string" where
  "re_sub eng p repl s =
     (if \<not> re_compiles eng p then Inl ReError
      else if CHR 0x5C \<in> set repl
      then (if \<not> re_template_ok eng p repl then Inl ReError
            else Inr (re_sub_loop eng p (re_expand eng p repl s) s 0 False))
      else Inr (re_sub_loop eng p (\<lambda>b e. repl) s 0 False))"

text \<open>\<open>re.search(pattern, s)\<close>, reduced to \<open>match.group()\<close> when there is a match.\<close>

definition re_search :: "regex_engine \<Rightarrow> string \<Rightarrow> string \<Rightarrow> error + string option" where
  "re_search eng p s =
     (if \<not> re_compiles eng p then Inl ReError
      else (case search_from eng p s 0 False of
              None \<Rightarrow> Inr None
            | Some (b, e) \<Rightarrow> Inr (Some (take (e - b) (drop b s)))))"

definition re_fullmatch :: "regex_engine \<Rightarrow> string \<Rightarrow> string \<Rightarrow> error + bool" where
  "re_fullmatch eng p s = (if \<not> re_compiles eng p then Inl ReError else Inr (re_fullmatch_ok eng p s))"

text \<open>
  An engine for the patterns that hold no metacharacter, where a pattern matches its
  own text and nothing else. Patterns with a metacharacter and templates with a
  backslash lie outside this fragment, and the engine refuses them.
\<close>

definition re_special :: "char \<Rightarrow> bool" where
  "re_special c = (c \<in> set ''.^$*+?{}[]|()'' \<or> c = CHR 0x5C)"

definition literal_engine :: regex_engine where
  "literal_engine =
     \<lparr> re_compiles = (\<lambda>p. \<forall>c \<in> set p. \<not> re_special c),
       re_match_at = (\<lambda>p s k must_advance.
          if prefix p (drop k s) \<and> (must_advance \<longrightarrow> p \<noteq> []) then Some (k + length p) else None),
       re_fullmatch_ok = (\<lambda>p s. p = s),
       re_template_ok = (\<lambda>p repl. False),
       re_expand = (\<lambda>p repl s b e. repl) \<rparr>"

subsection \<open>Configuration\<close>

text \<open>
  An entry of \<open>config.fn_clean_exts\<close> is a string or a dictionary with the optional keys
  \<open>type\<close>, \<open>pattern\<close> and \<open>module\<close>; the latter is a string or a list of strings.
\<close>

datatype module_spec = ModStr string | ModList "string list"

datatype clean_ext =
    ExtStr string
  | ExtDict (ext_type: "string option") (ext_pattern: "string option") (ext_module: "module_spec option")

text \<open>\<open>config.use_filename_as_sample_name\<close> is \<open>True\<close>, a list of search-pattern keys,
  or anything else.\<close>

datatype use_filename = UseTrue | UseKeys "string list" | UseOther

text \<open>A value of \<open>config.generalstats_sample_merge_groups\<close>: one pattern or a list.\<close>

datatype merge_group = GroupOne clean_ext | GroupList "clean_ext list"

text \<open>
  The module \<open>multiqc.config\<close> is not among the sources; the attributes that the
  functions read form this record, together with \<open>self.anchor\<close> of the calling module.
\<close>

record config =
  anchor :: string
  use_filename_as_sample_name :: use_filename
  fn_clean_sample_names :: bool
  fn_clean_exts :: "clean_ext list"
  fn_clean_trim :: "string list"
  prepend_dirs :: bool
  prepend_dirs_sep :: string
  prepend_dirs_depth :: int
  sample_names_replace :: "(string \<times> string) list"
  sample_names_replace_exact :: bool
  sample_names_replace_regex :: bool
  sample_names_replace_complete :: bool
  generalstats_sample_merge_groups :: "(string \<times> merge_group) list"

text \<open>The arguments of \<open>clean_s_name\<close> after \<open>s_name\<close>; \<open>f\<close> is a string or a dictionary
  with the optional keys \<open>root\<close>, \<open>fn\<close> and \<open>sp_key\<close>.\<close>

datatype f_arg = FStr string | FDict (f_root: "string option") (f_fn: "string option") (f_sp_key: "string option")

record clean_args =
  arg_f :: "f_arg option"
  arg_root :: "string option"
  arg_filename :: "string option"
  arg_search_pattern_key :: "string option"
  arg_fn_clean_exts :: "clean_ext list option"
  arg_fn_clean_trim :: "string list option"
  arg_prepend_dirs :: "bool option"

definition default_args :: clean_args where
  "default_args = \<lparr> arg_f = None, arg_root = None, arg_filename = None,
     arg_search_pattern_key = None, arg_fn_clean_exts = None, arg_fn_clean_trim = None,
     arg_prepend_dirs = None \<rparr>"

datatype s_name_arg = Scalar string | NameList "string list"

subsection \<open>\<open>clean_s_name\<close>, scalar input\<close>

text \<open>Lines 677 to 689: \<open>root\<close>, \<open>filename\<close> and \<open>search_pattern_key\<close> after \<open>f\<close> has
  been taken into account.\<close>

definition resolve_root :: "clean_args \<Rightarrow> string option" where
  "resolve_root a =
     (case arg_f a of
        Some (FStr r) \<Rightarrow> Some r
      | Some (FDict (Some r) fn k) \<Rightarrow> (if arg_root a = None then Some r else arg_root a)
      | _ \<Rightarrow> arg_root a)"

definition resolve_filename :: "clean_args \<Rightarrow> string option" where
  "resolve_filename a =
     (case arg_f a of
        Some (FDict r (Some fn) k) \<Rightarrow> (if arg_filename a = None then Some fn else arg_filename a)
      | _ \<Rightarrow> arg_filename a)"

definition resolve_sp_key :: "clean_args \<Rightarrow> string option" where
  "resolve_sp_key a =
     (case arg_f a of
        Some (FDict r fn (Some k)) \<Rightarrow> (if arg_search_pattern_key a = None then Some k else arg_search_pattern_key a)
      | _ \<Rightarrow> arg_search_pattern_key a)"

text \<open>Lines 693 to 701: the file name replaces the sample name when the configuration
  asks for it.\<close>

definition filename_override :: "config \<Rightarrow> clean_args \<Rightarrow> string \<Rightarrow> string" where
  "filename_override cfg a s_name =
     (case resolve_filename a of
        None \<Rightarrow> s_name
      | Some fn \<Rightarrow>
          (case use_filename_as_sample_name cfg of
             UseTrue \<Rightarrow> fn
           | UseKeys keys \<Rightarrow>
               (case resolve_sp_key a of
                  None \<Rightarrow> s_name
                | Some k \<Rightarrow> if k \<in> set keys then fn else s_name)
           | UseOther \<Rightarrow> s_name))"

text \<open>Lines 715 to 725: the directories of \<open>root\<close>, limited by
  \<open>config.prepend_dirs_depth\<close>, in front of the name.\<close>

definition limit_dirs :: "int \<Rightarrow> string list \<Rightarrow> string list" where
  "limit_dirs depth dirs =
     (if depth = 0 then dirs
      else if depth > 0 then drop (length dirs - nat depth) dirs
      else take (nat (- depth)) dirs)"

definition prepend_dir_names :: "config \<Rightarrow> string option \<Rightarrow> string \<Rightarrow> string" where
  "prepend_dir_names cfg root_dir name =
     (let sep = prepend_dirs_sep cfg;
          parts = (case root_dir of None \<Rightarrow> [] | Some r \<Rightarrow> if r = [] then [] else path_parts r);
          dirs = limit_dirs (prepend_dirs_depth cfg)
                   (map strip (filter (\<lambda>d. strip d \<noteq> []) parts))
      in if length dirs > 0 then join sep dirs @ sep @ name else name)"

text \<open>Lines 731 to 764: one entry of \<open>fn_clean_exts\<close>. A string is a \<open>truncate\<close>
  pattern; an entry limited to other modules is skipped; a missing pattern is the
  empty string; a missing or unknown type is logged and changes nothing.\<close>

definition ext_as_dict :: "clean_ext \<Rightarrow> clean_ext" where
  "ext_as_dict x = (case x of ExtStr p \<Rightarrow> ExtDict (Some ''truncate'') (Some p) None | _ \<Rightarrow> x)"

definition module_list :: "module_spec \<Rightarrow> string list" where
  "module_list m = (case m of ModStr x \<Rightarrow> [x] | ModList xs \<Rightarrow> xs)"

definition apply_ext :: "regex_engine \<Rightarrow> config \<Rightarrow> string \<Rightarrow> clean_ext \<Rightarrow> error + string" where
  "apply_ext eng cfg name x =
     (let ext = ext_as_dict x;
          pattern = (case ext_pattern ext of None \<Rightarrow> [] | Some p \<Rightarrow> p)
      in if (case ext_module ext of None \<Rightarrow> False | Some m \<Rightarrow> \<not> (\<exists>md \<in> set (module_list m). md = anchor cfg))
         then Inr name
         else if ext_type ext = Some ''truncate'' then split_first pattern name
         else if ext_type ext = Some ''remove'' \<or> ext_type ext = Some ''replace''
           then Inr (py_replace pattern [] name)
         else if ext_type ext = Some ''regex'' then re_sub eng pattern [] name
         else if ext_type ext = Some ''regex_keep''
           then (case re_search eng pattern name of
                   Inl e \<Rightarrow> Inl e
                 | Inr None \<Rightarrow> Inr name
                 | Inr (Some m) \<Rightarrow> Inr m)
         else Inr name)"

text \<open>Lines 766 to 770: one entry of \<open>fn_clean_trim\<close>. The slice \<open>[: -len(characters)]\<close>
  with empty \<open>characters\<close> is \<open>[:0]\<close>, the empty string.\<close>

definition apply_trim :: "string \<Rightarrow> string \<Rightarrow> string" where
  "apply_trim name characters =
     (let n1 = (if suffix characters name
                then (if characters = [] then [] else take (length name - length characters) name)
                else name)
      in if prefix characters n1 then drop (length characters) n1 else n1)"

text \<open>Lines 781 to 804: one entry of \<open>config.sample_names_replace\<close>; an error of the
  regular-expression library is logged and the name stays as it was.\<close>

definition apply_replace :: "regex_engine \<Rightarrow> config \<Rightarrow> string \<Rightarrow> string \<times> string \<Rightarrow> string" where
  "apply_replace eng cfg name sr =
     (let s_name_search = fst sr; s_name_replace = snd sr in
      if sample_names_replace_exact cfg \<and> \<not> sample_names_replace_regex cfg \<and> name \<noteq> s_name_search
      then name
      else
        (case (if sample_names_replace_exact cfg \<and> sample_names_replace_regex cfg
               then re_fullmatch eng s_name_search name else Inr True) of
           Inl e \<Rightarrow> name
         | Inr False \<Rightarrow> name
         | Inr True \<Rightarrow>
             if sample_names_replace_regex cfg
             then (case re_sub eng s_name_search s_name_replace name of Inl e \<Rightarrow> name | Inr r \<Rightarrow> r)
             else if sample_names_replace_complete cfg
             then (if contains s_name_search name then s_name_replace else name)
             else py_replace s_name_search s_name_replace name))"

text \<open>Lines 674 to 777: the name before the replacements of \<open>--replace-names\<close>.\<close>

definition trimmed_before_replace :: "regex_engine \<Rightarrow> config \<Rightarrow> clean_args \<Rightarrow> string \<Rightarrow> error + string" where
  "trimmed_before_replace eng cfg a s_name =
     (let t1 = basename (filename_override cfg a s_name);
          exts = (case arg_fn_clean_exts a of None \<Rightarrow> fn_clean_exts cfg | Some x \<Rightarrow> x);
          trim = (case arg_fn_clean_trim a of None \<Rightarrow> fn_clean_trim cfg | Some x \<Rightarrow> x);
          pd = (case arg_prepend_dirs a of None \<Rightarrow> prepend_dirs cfg | Some x \<Rightarrow> x);
          t2 = (if pd then prepend_dir_names cfg (resolve_root a) t1 else t1)
      in bind_err
           (if fn_clean_sample_names cfg
            then bind_err (fold_err (apply_ext eng cfg) t2 exts) (\<lambda>t3. Inr (foldl apply_trim t3 trim))
            else Inr t2)
           (\<lambda>t4. let t5 = strip t4 in Inr (if t5 = [] then s_name else t5)))"

definition clean_scalar :: "regex_engine \<Rightarrow> config \<Rightarrow> clean_args \<Rightarrow> string \<Rightarrow> error + string" where
  "clean_scalar eng cfg a s_name =
     bind_err (trimmed_before_replace eng cfg a s_name)
       (\<lambda>t. Inr (foldl (apply_replace eng cfg) t (sample_names_replace cfg)))"

subsection \<open>\<open>_clean_fastq_pair\<close>\<close>

text \<open>
  The three substitutions have fixed patterns. \<open>$\<close> matches at the end of the string
  and before a newline that ends it; \<open>\d\<close> matches, below 256, the ten ASCII digits.
\<close>

definition is_digit :: "char \<Rightarrow> bool" where
  "is_digit c = (c \<in> set ''0123456789'')"

definition split_final_newline :: "string \<Rightarrow> string \<times> string" where
  "split_final_newline s =
     (if s \<noteq> [] \<and> last s = CHR 0x0A then (butlast s, [CHR 0x0A]) else (s, []))"

text \<open>\<open>re.sub(r"_R1_\d{3}$", "", r)\<close>, with \<open>d\<close> for the digit after \<open>R\<close>.\<close>

definition strip_illumina :: "char \<Rightarrow> string \<Rightarrow> string" where
  "strip_illumina d r =
     (let (body, nl) = split_final_newline r;
          n = length body;
          tail = drop (n - 7) body
      in if 7 \<le> n \<and> take 4 tail = [CHR ''_'', CHR ''R'', d, CHR ''_''] \<and> (\<forall>c \<in> set (drop 4 tail). is_digit c)
         then take (n - 7) body @ nl else r)"

text \<open>\<open>re.sub(r"_R1_", "_", r)\<close>.\<close>

definition strip_middle :: "char \<Rightarrow> string \<Rightarrow> string" where
  "strip_middle d r = replace_scan [CHR ''_'', CHR ''R'', d, CHR ''_''] ''_'' r"

text \<open>\<open>re.sub(r"([_.-][rR]?1)?$", "", r)\<close>: the token that ends the string (or stands
  before its final newline) goes; the empty matches change nothing.\<close>

definition strip_generic :: "char \<Rightarrow> string \<Rightarrow> string" where
  "strip_generic d r =
     (let (body, nl) = split_final_newline r;
          n = length body;
          t3 = drop (n - 3) body;
          t2 = drop (n - 2) body
      in if 3 \<le> n \<and> hd t3 \<in> set ''_.-'' \<and> hd (tl t3) \<in> set ''rR'' \<and> tl (tl t3) = [d]
         then take (n - 3) body @ nl
         else if 2 \<le> n \<and> hd t2 \<in> set ''_.-'' \<and> tl t2 = [d]
         then take (n - 2) body @ nl
         else r)"

definition clean_fastq_pair :: "string \<Rightarrow> string \<Rightarrow> string option" where
  "clean_fastq_pair r1 r2 =
     (if strip_illumina (CHR ''1'') r1 = strip_illumina (CHR ''2'') r2
      then Some (strip_illumina (CHR ''1'') r1)
      else if strip_middle (CHR ''1'') r1 = strip_middle (CHR ''2'') r2
      then Some (strip_middle (CHR ''1'') r1)
      else if strip_generic (CHR ''1'') r1 = strip_generic (CHR ''2'') r2
      then Some (strip_generic (CHR ''1'') r1)
      else None)"

subsection \<open>\<open>clean_s_name\<close>\<close>

text \<open>Lines 642 to 672 for a list, the scalar pipeline otherwise.\<close>

definition clean_s_name :: "regex_engine \<Rightarrow> config \<Rightarrow> clean_args \<Rightarrow> s_name_arg \<Rightarrow> error + string" where
  "clean_s_name eng cfg a s_name =
     (case s_name of
        Scalar s \<Rightarrow> clean_scalar eng cfg a s
      | NameList names \<Rightarrow>
          if length names = 0 then Inl EmptyInputError
          else bind_err (map_err (clean_scalar eng cfg a) names)
            (\<lambda>clean_names.
               if card (set clean_names) = 1 then Inr (hd clean_names)
               else (case (if length clean_names = 2
                           then clean_fastq_pair (clean_names ! 0) (clean_names ! 1) else None) of
                       Some fastq_s_name \<Rightarrow> Inr fastq_s_name
                     | None \<Rightarrow> Inr (join ''_'' clean_names))))"

subsection \<open>\<open>groups_for_sample\<close> and \<open>group_samples_names\<close>\<close>

definition group_exts :: "merge_group \<Rightarrow> clean_ext list" where
  "group_exts g = (case g of GroupOne x \<Rightarrow> [x] | GroupList xs \<Rightarrow> xs)"

definition grouping_args :: "clean_ext list \<Rightarrow> clean_args" where
  "grouping_args grouping_exts =
     default_args \<lparr> arg_fn_clean_exts := Some grouping_exts, arg_fn_clean_trim := Some [],
                    arg_prepend_dirs := Some False \<rparr>"

text \<open>Lines 463 to 476: the first label whose patterns change the name wins.\<close>

fun match_label :: "regex_engine \<Rightarrow> config \<Rightarrow> string \<Rightarrow> (string \<times> merge_group) list \<Rightarrow> error + (string \<times> string option)" where
  "match_label eng cfg s_name [] = Inr (s_name, None)"
| "match_label eng cfg s_name ((label, g) # rest) =
     (if group_exts g = [] then match_label eng cfg s_name rest
      else bind_err (clean_s_name eng cfg (grouping_args (group_exts g)) (Scalar s_name))
        (\<lambda>s_name_without_ext.
           if s_name_without_ext \<noteq> s_name
           then bind_err (clean_s_name eng cfg default_args (Scalar s_name_without_ext))
                  (\<lambda>group_name. Inr (group_name, Some label))
           else match_label eng cfg s_name rest))"

definition groups_for_sample :: "regex_engine \<Rightarrow> config \<Rightarrow> string \<Rightarrow> error + (string \<times> string option)" where
  "groups_for_sample eng cfg s_name =
     (if generalstats_sample_merge_groups cfg = [] then Inr (s_name, None)
      else match_label eng cfg s_name (generalstats_sample_merge_groups cfg))"

text \<open>\<open>d[k].append(v)\<close> on a \<open>defaultdict(list)\<close>: a new key goes to the end.\<close>

fun dict_append :: "'k \<Rightarrow> 'v \<Rightarrow> ('k \<times> 'v list) list \<Rightarrow> ('k \<times> 'v list) list" where
  "dict_append k v [] = [(k, [v])]"
| "dict_append k v ((k', vs) # d) =
     (if k' = k then (k', vs @ [v]) # d else (k', vs) # dict_append k v d)"


text \<open>\<open>f"{label}"\<close> for an optional label.\<close>

definition label_str :: "string option \<Rightarrow> string" where
  "label_str label = (case label of None \<Rightarrow> ''None'' | Some l \<Rightarrow> l)"

type_synonym member = "string option \<times> string \<times> string"

definition bucket_by_label :: "(string option \<times> string \<times> string) list \<Rightarrow> (string option \<times> (string \<times> string) list) list" where
  "bucket_by_label resolved = foldl (\<lambda>d (label, gn, orig). dict_append label (gn, orig) d) [] resolved"

definition bucket_by_name :: "(string option \<times> (string \<times> string) list) list \<Rightarrow> (string \<times> (string option \<times> string) list) list" where
  "bucket_by_name group_by_label =
     foldl (\<lambda>d (label, group). foldl (\<lambda>d' (group_name, original_name). dict_append group_name (label, original_name) d') d group)
       [] group_by_label"

definition extend_names :: "(string \<times> (string option \<times> string) list) list \<Rightarrow> (string \<times> member list) list" where
  "extend_names group_by_merged_name =
     map (\<lambda>(group_name, group).
            (group_name,
             map (\<lambda>(label, original_name).
                    (label,
                     if length group = 1 then group_name
                     else group_name @ '' ('' @ label_str label @ '')'',
                     original_name)) group))
         group_by_merged_name"

definition group_samples_names :: "regex_engine \<Rightarrow> config \<Rightarrow> string list \<Rightarrow> error + (string \<times> member list) list" where
  "group_samples_names eng cfg samples =
     bind_err (map_err (\<lambda>original_name.
                  bind_err (groups_for_sample eng cfg original_name)
                    (\<lambda>(group_name, label). Inr (label, group_name, original_name)))
               (sort samples))
       (\<lambda>resolved. Inr (extend_names (bucket_by_name (bucket_by_label resolved))))"

subsection \<open>\<open>group_samples_and_average_metrics\<close>\<close>

text \<open>A metric value; \<open>bool\<close> is a subclass of \<open>int\<close>, so \<open>isinstance(val, int)\<close> holds
  for it, and \<open>float(val)\<close> is \<open>0.0\<close> or \<open>1.0\<close>. The arithmetic is that of the real
  numbers: rounding, infinities, \<open>nan\<close> and the \<open>OverflowError\<close> of \<open>float\<close> on an
  integer beyond the range of a double are left out.\<close>

datatype pyval = PInt int | PFloat real | PBool bool | PStr string | PNone





type_synonym row_data = "string \<rightharpoonup> pyval"

record input_row =
  sample :: string
  data :: row_data




definition original :: "member \<Rightarrow> string" where
  "original m = snd (snd m)"













subsection \<open>Notions used in the statements\<close>






text \<open>The key-value pairs of a dictionary of lists, in order; and a resolved sample
  \<open>(label, group name, original name)\<close> as the pair it is under its group name.\<close>

definition entries :: "('k \<times> 'v list) list \<Rightarrow> ('k \<times> 'v) list" where
  "entries d = concat (map (\<lambda>kv. map (Pair (fst kv)) (snd kv)) d)"

definition regroup :: "string option \<times> string \<times> string \<Rightarrow> string \<times> string option \<times> string" where
  "regroup x = (fst (snd x), (fst x, snd (snd x)))"




subsection \<open>Inputs of the examples\<close>

definition plain_config :: config where
  "plain_config =
     \<lparr> anchor = ''multiqc'', use_filename_as_sample_name = UseOther,
       fn_clean_sample_names = True, fn_clean_exts = [], fn_clean_trim = [],
       prepend_dirs = False, prepend_dirs_sep = '' | '', prepend_dirs_depth = 0,
       sample_names_replace = [], sample_names_replace_exact = False,
       sample_names_replace_regex = False, sample_names_replace_complete = False,
       generalstats_sample_merge_groups = [] \<rparr>"

text \<open>The read labels \<open>R1\<close> and \<open>R2\<close>, each with one \<open>truncate\<close> pattern.\<close>

definition mate_config :: config where
  "mate_config = plain_config \<lparr> generalstats_sample_merge_groups :=
     [(''R1'', GroupOne (ExtStr ''_R1'')), (''R2'', GroupOne (ExtStr ''_R2''))] \<rparr>"









section \<open>Properties\<close>

declare re_sub_loop.simps [simp del]

subsection \<open>Errors in sequence\<close>

lemma bind_err_simps [simp]: "bind_err (Inl e) k = Inl e" "bind_err (Inr x) k = k x"
  by (simp_all add: bind_err_def)

lemma bind_err_Inr_iff: "bind_err m k = Inr y \<longleftrightarrow> (\<exists>x. m = Inr x \<and> k x = Inr y)"
  by (cases m) auto



lemma map_err_Inr_iff: "map_err g xs = Inr ys \<longleftrightarrow> list_all2 (\<lambda>x y. g x = Inr y) xs ys"
proof (induction xs arbitrary: ys)
  case Nil
  show ?case by auto
next
  case (Cons x xs)
  show ?case
  proof (cases "g x")
    case (Inl e)
    then show ?thesis by (cases ys) auto
  next
    case gx: (Inr y)
    show ?thesis
    proof (cases "map_err g xs")
      case (Inl e)
      with gx Cons.IH show ?thesis by (cases ys) auto
    next
      case (Inr zs)
      with gx Cons.IH show ?thesis by (cases ys) auto
    qed
  qed
qed

lemma map_err_total: "(\<And>x. x \<in> set xs \<Longrightarrow> \<exists>y. g x = Inr y) \<Longrightarrow> \<exists>ys. map_err g xs = Inr ys"
proof (induction xs)
  case Nil
  show ?case by simp
next
  case (Cons x xs)
  then obtain y ys where "g x = Inr y" "map_err g xs = Inr ys" by (meson list.set_intros)
  then show ?case by simp
qed



subsection \<open>What \<open>clean_s_name\<close> raises\<close>









subsection \<open>The empty name\<close>









subsection \<open>A list of names\<close>

lemma card_set_one: "cs \<noteq> [] \<Longrightarrow> card (set cs) = 1 \<longleftrightarrow> (\<forall>c \<in> set cs. c = hd cs)"
proof
  assume ne: "cs \<noteq> []" and "card (set cs) = 1"
  then obtain x where "set cs = {x}" by (auto simp: card_1_singleton_iff)
  moreover from ne have "hd cs \<in> set cs" by simp
  ultimately show "\<forall>c \<in> set cs. c = hd cs" by auto
next
  assume ne: "cs \<noteq> []" and "\<forall>c \<in> set cs. c = hd cs"
  then have "set cs = {hd cs}" by (auto simp: hd_in_set)
  then show "card (set cs) = 1" by simp
qed

text \<open>
  C3, as amended. For a non-empty list whose elements are cleaned, each on its own and
  with the parameters of the call, to the names \<open>cs\<close>: when all of \<open>cs\<close> are the same
  that name is returned; otherwise, when there are exactly two and the pair matcher
  finds a common name, that name is returned; otherwise all of \<open>cs\<close>, repeated names
  included, are joined with \<open>_\<close> in the order of the list.
\<close>

theorem clean_list_result:
  assumes "names \<noteq> []"
    and "list_all2 (\<lambda>n c. clean_s_name eng cfg a (Scalar n) = Inr c) names cs"
  shows "clean_s_name eng cfg a (NameList names) =
           Inr (if \<forall>c \<in> set cs. c = hd cs then hd cs
                else if length cs = 2 \<and> clean_fastq_pair (cs ! 0) (cs ! 1) \<noteq> None
                then the (clean_fastq_pair (cs ! 0) (cs ! 1))
                else join ''_'' cs)"
proof -
  from assms(2) have m: "map_err (clean_scalar eng cfg a) names = Inr cs"
    by (simp add: map_err_Inr_iff clean_s_name_def)
  from assms have "cs \<noteq> []" by (auto simp: list_all2_conv_all_nth)
  then have c: "card (set cs) = 1 \<longleftrightarrow> (\<forall>c \<in> set cs. c = hd cs)" by (rule card_set_one)
  show ?thesis
  proof (cases "\<forall>c \<in> set cs. c = hd cs")
    case True
    with c have "card (set cs) = 1" by simp
    with True assms(1) m show ?thesis by (simp add: clean_s_name_def)
  next
    case False
    with c have "card (set cs) \<noteq> 1" by simp
    with False assms(1) m show ?thesis
      by (auto simp: clean_s_name_def split: option.splits)
  qed
qed

text \<open>The theorem at the pair \<open>sample_R1_001\<close>, \<open>sample_R2_001\<close>, which gives \<open>sample\<close>.\<close>

theorem clean_list_witness:
  "clean_s_name literal_engine plain_config default_args (NameList [''sample_R1_001'', ''sample_R2_001''])
     = Inr ''sample''"
proof -
  have ne: "[''sample_R1_001'', ''sample_R2_001''] \<noteq> []" by simp
  have c1: "clean_s_name literal_engine plain_config default_args (Scalar ''sample_R1_001'') = Inr ''sample_R1_001''"
    by code_simp
  have c2: "clean_s_name literal_engine plain_config default_args (Scalar ''sample_R2_001'') = Inr ''sample_R2_001''"
    by code_simp
  have each: "list_all2 (\<lambda>n c. clean_s_name literal_engine plain_config default_args (Scalar n) = Inr c)
           [''sample_R1_001'', ''sample_R2_001''] [''sample_R1_001'', ''sample_R2_001'']"
    using c1 c2 by simp
  have pair: "clean_fastq_pair ''sample_R1_001'' ''sample_R2_001'' = Some ''sample''"
    by code_simp
  from clean_list_result [OF ne each] pair show ?thesis by simp
qed

text \<open>
  C3 as stated fails: the three names \<open>a\<close>, \<open>a\<close>, \<open>b\<close> are joined to \<open>a_a_b\<close>, whereas
  joining the distinct names would give \<open>a_b\<close>.
\<close>

theorem clean_list_counterexample:
  "clean_s_name literal_engine plain_config default_args (NameList [''a'', ''a'', ''b'']) = Inr ''a_a_b'' \<and>
   join ''_'' (remdups [''a'', ''a'', ''b'']) = ''a_b''"
  by code_simp

subsection \<open>The \<open>regex\<close> entry\<close>

lemma re_sub_loop_length:
  "length (re_sub_loop eng p (\<lambda>b e. []) s pos adv) \<le> length s - pos"
proof (induction eng p "\<lambda>(b::nat) (e::nat). ([]::string)" s pos adv rule: re_sub_loop.induct)
  case (1 eng p s pos adv)
  show ?case
  proof (cases "search_from eng p s pos adv")
    case None
    then show ?thesis by (subst re_sub_loop.simps) simp
  next
    case (Some be)
    obtain b e where be: "be = (b, e)" by (cases be)
    have fm: "first_match eng p s pos adv ks = Some (b', e') \<Longrightarrow>
            b' \<in> set ks \<and> match_end eng p s b' (adv \<and> b' = pos) = Some e'" for ks b' e'
      by (induction ks) (auto split: option.splits)
    from Some be have "first_match eng p s pos adv [pos ..< Suc (length s)] = Some (b, e)"
      by (simp add: search_from_def)
    from fm [OF this] have b: "pos \<le> b" and m: "match_end eng p s b (adv \<and> b = pos) = Some e"
      by auto
    from m have e: "b \<le> e" "e \<le> length s"
      by (auto simp: match_end_def split: option.splits if_splits)
    from 1 [OF Some be [symmetric]] have "length (re_sub_loop eng p (\<lambda>b e. []) s e (e = b)) \<le> length s - e" .
    with Some be b e show ?thesis by (subst re_sub_loop.simps) simp
  qed
qed

text \<open>
  C6, as amended. A \<open>regex\<close> entry deletes every match that the scan finds, not the
  first alone: when the pattern matches at \<open>[b1, e1)\<close> and the search that resumes at
  \<open>e1\<close> finds a further match \<open>[b2, e2)\<close>, the result keeps the text before \<open>b1\<close> and
  the text between \<open>e1\<close> and \<open>b2\<close> and goes on after \<open>e2\<close>; neither match is kept.
\<close>

theorem regex_rule_deletes_later_match:
  assumes "re_compiles eng p"
    and "search_from eng p s 0 False = Some (b1, e1)"
    and "search_from eng p s e1 (e1 = b1) = Some (b2, e2)"
  shows "apply_ext eng cfg s (ExtDict (Some ''regex'') (Some p) None) =
           Inr (take b1 s @ take (b2 - e1) (drop e1 s) @ re_sub_loop eng p (\<lambda>b e. []) s e2 (e2 = b2)) \<and>
         length (re_sub_loop eng p (\<lambda>b e. []) s e2 (e2 = b2)) \<le> length s - e2"
proof -
  have "re_sub_loop eng p (\<lambda>b e. []) s 0 False =
          take b1 s @ re_sub_loop eng p (\<lambda>b e. []) s e1 (e1 = b1)"
    using assms(2) by (subst re_sub_loop.simps) simp
  also have "re_sub_loop eng p (\<lambda>b e. []) s e1 (e1 = b1) =
          take (b2 - e1) (drop e1 s) @ re_sub_loop eng p (\<lambda>b e. []) s e2 (e2 = b2)"
    using assms(3) by (subst re_sub_loop.simps) simp
  finally show ?thesis using assms(1)
    by (simp add: apply_ext_def ext_as_dict_def re_sub_def re_sub_loop_length)
qed

text \<open>The theorem at the pattern \<open>ab\<close> and the name \<open>abcab\<close>, with the matches
  \<open>[0, 2)\<close> and \<open>[3, 5)\<close>.\<close>

theorem regex_rule_witness:
  "apply_ext literal_engine plain_config ''abcab'' (ExtDict (Some ''regex'') (Some ''ab'') None) =
     Inr (take 0 ''abcab'' @ take (3 - 2) (drop 2 ''abcab'') @
          re_sub_loop literal_engine ''ab'' (\<lambda>b e. []) ''abcab'' 5 False)"
proof -
  have c: "re_compiles literal_engine ''ab''" by code_simp
  have m1: "search_from literal_engine ''ab'' ''abcab'' 0 False = Some (0, 2)" by code_simp
  have m2: "search_from literal_engine ''ab'' ''abcab'' 2 (2 = (0::nat)) = Some (3, 5)" by code_simp
  from regex_rule_deletes_later_match [OF c m1 m2, of plain_config] show ?thesis by simp
qed

text \<open>
  C6 as stated fails: the pattern \<open>ab\<close> occurs twice in \<open>abcab\<close>, and the entry
  leaves \<open>c\<close>, where deleting the first match alone would leave \<open>cab\<close>.
\<close>

theorem regex_rule_counterexample:
  "apply_ext literal_engine plain_config ''abcab'' (ExtDict (Some ''regex'') (Some ''ab'') None) = Inr ''c''"
  by code_simp

subsection \<open>The groups partition the samples\<close>

lemma entries_simps [simp]:
  "entries [] = []" "entries ((k, vs) # d) = map (Pair k) vs @ entries d"
  by (simp_all add: entries_def)

lemma dict_append_keys: "fst ` set (dict_append k v d) = insert k (fst ` set d)"
proof (induction d)
  case Nil
  show ?case by simp
next
  case (Cons kv d)
  obtain k' vs where kv: "kv = (k', vs)" by (cases kv)
  show ?case using Cons by (cases "k' = k") (simp_all add: kv insert_commute)
qed

lemma dict_append_distinct: "distinct (map fst d) \<Longrightarrow> distinct (map fst (dict_append k v d))"
proof (induction d)
  case Nil
  show ?case by simp
next
  case (Cons kv d)
  obtain k' vs where kv: "kv = (k', vs)" by (cases kv)
  from Cons.prems have "k' \<notin> fst ` set (dict_append k v d)" if "k' \<noteq> k"
    using that by (simp add: dict_append_keys kv)
  with Cons show ?case by (auto simp: kv)
qed

lemma dict_append_entries: "mset (entries (dict_append k v d)) = add_mset (k, v) (mset (entries d))"
  by (induction d) auto

lemma bucket_label_fold:
  "mset (entries (foldl (\<lambda>d (label, gn, orig). dict_append label (gn, orig) d) d0 xs))
     = mset (entries d0) + mset xs \<and>
   (distinct (map fst d0) \<longrightarrow> distinct (map fst (foldl (\<lambda>d (label, gn, orig). dict_append label (gn, orig) d) d0 xs)))"
proof (induction xs arbitrary: d0)
  case Nil
  show ?case by simp
next
  case (Cons x xs)
  obtain l gn orig where x: "x = (l, gn, orig)" by (cases x)
  show ?case using Cons [of "dict_append l (gn, orig) d0"]
    by (simp add: x dict_append_entries dict_append_distinct)
qed

lemma bucket_name_inner:
  "mset (entries (foldl (\<lambda>d' (group_name, original_name). dict_append group_name (label, original_name) d') d0 grp))
     = mset (entries d0) + mset (map (\<lambda>(gn, orig). (gn, (label, orig))) grp) \<and>
   (distinct (map fst d0) \<longrightarrow>
      distinct (map fst (foldl (\<lambda>d' (group_name, original_name). dict_append group_name (label, original_name) d') d0 grp)))"
proof (induction grp arbitrary: d0)
  case Nil
  show ?case by simp
next
  case (Cons x xs)
  obtain gn orig where x: "x = (gn, orig)" by (cases x)
  show ?case using Cons [of "dict_append gn (label, orig) d0"]
    by (simp add: x dict_append_entries dict_append_distinct)
qed

lemma bucket_name_outer:
  "mset (entries (foldl (\<lambda>d (label, group). foldl (\<lambda>d' (group_name, original_name). dict_append group_name (label, original_name) d') d group) d0 gbl))
     = mset (entries d0) + mset (map regroup (entries gbl)) \<and>
   (distinct (map fst d0) \<longrightarrow>
      distinct (map fst (foldl (\<lambda>d (label, group). foldl (\<lambda>d' (group_name, original_name). dict_append group_name (label, original_name) d') d group) d0 gbl)))"
proof (induction gbl arbitrary: d0)
  case Nil
  show ?case by simp
next
  case (Cons x xs)
  obtain label grp where x: "x = (label, grp)" by (cases x)
  let ?d1 = "foldl (\<lambda>d' (group_name, original_name). dict_append group_name (label, original_name) d') d0 grp"
  have m: "map (\<lambda>(gn, orig). (gn, (label, orig))) grp = map regroup (map (Pair label) grp)"
    by (simp add: regroup_def case_prod_unfold)
  show ?case using Cons [of ?d1] bucket_name_inner [of label d0 grp]
    by (simp add: x m)
qed

lemma buckets:
  "mset (entries (bucket_by_name (bucket_by_label resolved))) = mset (map regroup resolved) \<and>
   distinct (map fst (bucket_by_name (bucket_by_label resolved)))"
proof -
  have 1: "mset (entries (bucket_by_label resolved)) = mset resolved"
    using bucket_label_fold [of "[]" resolved] by (simp add: bucket_by_label_def)
  have "mset (map regroup (entries (bucket_by_label resolved))) = mset (map regroup resolved)"
    using 1 by (metis mset_map)
  then show ?thesis
    using bucket_name_outer [of "[]" "bucket_by_label resolved"] by (simp add: bucket_by_name_def)
qed

lemma extend_names_keys: "map fst (extend_names d) = map fst d"
  by (simp add: extend_names_def case_prod_unfold)

lemma extend_names_originals:
  "map original (concat (map snd (extend_names d))) = map (\<lambda>e. snd (snd e)) (entries d)"
  by (induction d) (auto simp: extend_names_def original_def case_prod_unfold comp_def)

lemma resolved_originals:
  assumes "map_err (\<lambda>original_name. bind_err (groups_for_sample eng cfg original_name)
                    (\<lambda>(group_name, label). Inr (label, group_name, original_name))) xs = Inr resolved"
  shows "resolved = map (\<lambda>n. (snd (projr (groups_for_sample eng cfg n)), fst (projr (groups_for_sample eng cfg n)), n)) xs
         \<and> (\<forall>n \<in> set xs. \<exists>r. groups_for_sample eng cfg n = Inr r)"
  using assms
proof (induction xs arbitrary: resolved)
  case Nil
  then show ?case by simp
next
  case (Cons x xs)
  then show ?case
    by (auto split: sum.splits simp: bind_err_def)
qed

lemma distinct_concat_unique:
  "distinct (concat (map f xs)) \<Longrightarrow> x \<in> set xs \<Longrightarrow> y \<in> set xs \<Longrightarrow> a \<in> set (f x) \<Longrightarrow> a \<in> set (f y) \<Longrightarrow> x = y"
  by (induction xs) auto

lemma partition_of_groups:
  assumes "group_samples_names eng cfg samples = Inr groups"
  shows "mset (map original (concat (map snd groups))) = mset samples \<and>
         distinct (map fst groups) \<and>
         (distinct samples \<longrightarrow>
            (\<forall>s \<in> set samples. \<exists>!g. g \<in> set groups \<and> s \<in> original ` set (snd g)) \<and>
            (\<forall>g \<in> set groups. distinct (map original (snd g))))"
proof -
  from assms obtain resolved where
    r: "map_err (\<lambda>original_name. bind_err (groups_for_sample eng cfg original_name)
                    (\<lambda>(group_name, label). Inr (label, group_name, original_name))) (sort samples) = Inr resolved"
    and g: "groups = extend_names (bucket_by_name (bucket_by_label resolved))"
    by (auto simp: group_samples_names_def bind_err_Inr_iff)
  let ?d = "bucket_by_name (bucket_by_label resolved)"
  from resolved_originals [OF r] have ro: "map (\<lambda>x. snd (snd x)) resolved = sort samples"
    by (simp add: comp_def)
  have "mset (map (\<lambda>e. snd (snd e)) (entries ?d)) = image_mset (\<lambda>e. snd (snd e)) (mset (map regroup resolved))"
    using buckets [of resolved] by (metis mset_map)
  also have "\<dots> = mset (map (\<lambda>x. snd (snd x)) resolved)"
    by (simp add: regroup_def comp_def image_mset.compositionality)
  also have "\<dots> = mset samples" by (simp add: ro)
  finally have ms: "mset (map original (concat (map snd groups))) = mset samples"
    by (simp add: g extend_names_originals)
  have keys: "distinct (map fst groups)"
    using buckets [of resolved] by (simp add: g extend_names_keys)
  have part: "(\<forall>s \<in> set samples. \<exists>!g. g \<in> set groups \<and> s \<in> original ` set (snd g)) \<and>
            (\<forall>g \<in> set groups. distinct (map original (snd g)))" if d: "distinct samples"
  proof -
    have "concat (map (\<lambda>g. map original (snd g)) groups) = map original (concat (map snd groups))"
      by (simp add: map_concat comp_def)
    moreover from ms d have "distinct (map original (concat (map snd groups)))"
      using mset_eq_imp_distinct_iff by blast
    ultimately have dc: "distinct (concat (map (\<lambda>g. map original (snd g)) groups))"
      by simp
    have ex: "\<exists>g. g \<in> set groups \<and> s \<in> original ` set (snd g)" if "s \<in> set samples" for s
    proof -
      from ms have "set (map original (concat (map snd groups))) = set samples"
        by (rule mset_eq_setD)
      with that have "s \<in> set (map original (concat (map snd groups)))" by simp
      then obtain m g where "g \<in> set groups" "m \<in> set (snd g)" "s = original m" by auto
      then show ?thesis by blast
    qed
    have un: "g1 = g2" if "g1 \<in> set groups" "g2 \<in> set groups"
        "s \<in> original ` set (snd g1)" "s \<in> original ` set (snd g2)" for g1 g2 s
      using distinct_concat_unique [OF dc that(1) that(2), of s] that(3) that(4) by simp
    from dc have "\<forall>g \<in> set groups. distinct (map original (snd g))"
      by (auto simp: distinct_concat_iff)
    with ex un show ?thesis by blast
  qed
  from ms keys part show ?thesis by blast
qed

lemma group_samples_names_total:
  assumes "\<forall>n \<in> set samples. \<exists>r. groups_for_sample eng cfg n = Inr r"
  shows "\<exists>gs. group_samples_names eng cfg samples = Inr gs"
proof -
  have "\<exists>ys. map_err (\<lambda>original_name. bind_err (groups_for_sample eng cfg original_name)
                    (\<lambda>(group_name, label). Inr (label, group_name, original_name))) (sort samples) = Inr ys"
  proof (rule map_err_total)
    fix x assume "x \<in> set (sort samples)"
    with assms obtain r where "groups_for_sample eng cfg x = Inr r" by auto
    then show "\<exists>y. bind_err (groups_for_sample eng cfg x)
                    (\<lambda>(group_name, label). Inr (label, group_name, x)) = Inr y"
      by (cases r) simp
  qed
  then show ?thesis by (auto simp: group_samples_names_def)
qed

text \<open>
  C8. \<open>group_samples_names\<close> returns whenever every sample can be resolved. When it
  returns, the original names in the member lists are, counted with repetition, the
  names given; the group names are pairwise different; and for names without
  repetition every name is in the member list of exactly one group and is there once.
\<close>

theorem group_samples_names_partition:
  "((\<forall>n \<in> set samples. \<exists>r. groups_for_sample eng cfg n = Inr r) \<longrightarrow>
      (\<exists>gs. group_samples_names eng cfg samples = Inr gs)) \<and>
   (group_samples_names eng cfg samples = Inr groups \<longrightarrow>
      mset (map original (concat (map snd groups))) = mset samples \<and>
      distinct (map fst groups) \<and>
      (distinct samples \<longrightarrow>
         (\<forall>s \<in> set samples. \<exists>!g. g \<in> set groups \<and> s \<in> original ` set (snd g)) \<and>
         (\<forall>g \<in> set groups. distinct (map original (snd g)))))"
  using group_samples_names_total [of samples eng cfg] partition_of_groups [of eng cfg samples groups]
  by blast


text \<open>The theorem at four names under the labels \<open>R1\<close> and \<open>R2\<close>.\<close>

theorem group_samples_names_partition_witness:
  "mset (map original (concat (map snd
       [(''s'', [(Some ''R1'', ''s (R1)'', ''s_R1''), (Some ''R2'', ''s (R2)'', ''s_R2'')]),
        (''u'', [(Some ''R1'', ''u'', ''u_R1'')]),
        (''t'', [(None, ''t'', ''t'')])]))) = mset [''s_R2'', ''s_R1'', ''t'', ''u_R1''] \<and>
   distinct (map original [(Some ''R1'', ''s (R1)'', ''s_R1''), (Some ''R2'', ''s (R2)'', ''s_R2'')])"
proof -
  let ?groups = "[(''s'', [(Some ''R1'', ''s (R1)'', ''s_R1''), (Some ''R2'', ''s (R2)'', ''s_R2'')]),
               (''u'', [(Some ''R1'', ''u'', ''u_R1'')]),
               (''t'', [(None, ''t'', ''t'')])]"
  have run: "group_samples_names literal_engine mate_config [''s_R2'', ''s_R1'', ''t'', ''u_R1''] = Inr ?groups"
    by code_simp
  have d: "distinct [''s_R2'', ''s_R1'', ''t'', ''u_R1'']" by simp
  have g: "(''s'', [(Some ''R1'', ''s (R1)'', ''s_R1''), (Some ''R2'', ''s (R2)'', ''s_R2'')]) \<in> set ?groups"
    by simp
  have tot: "\<forall>n \<in> set [''s_R2'', ''s_R1'', ''t'', ''u_R1'']. \<exists>r. groups_for_sample literal_engine mate_config n = Inr r"
  proof -
    have "groups_for_sample literal_engine mate_config ''s_R2'' = Inr (''s'', Some ''R2'')"
      "groups_for_sample literal_engine mate_config ''s_R1'' = Inr (''s'', Some ''R1'')"
      "groups_for_sample literal_engine mate_config ''t'' = Inr (''t'', None)"
      "groups_for_sample literal_engine mate_config ''u_R1'' = Inr (''u'', Some ''R1'')"
      by code_simp+
    then show ?thesis by simp
  qed
  from group_samples_names_partition [of "[''s_R2'', ''s_R1'', ''t'', ''u_R1'']" literal_engine mate_config ?groups]
    tot run d g
  show ?thesis by fastforce
qed

subsection \<open>Samples without a label and groups of one\<close>


















subsection \<open>The merged row\<close>















































end
